theory Spec2Isabelle
  imports Main
begin

section \<open>JavaScript values of the request body\<close>

text \<open>
  The request body is parsed JSON. A value is one of JavaScript's: \<open>undefined\<close> (which
  no parsed body contains, but which reading an absent property yields), \<open>null\<close>, a
  boolean, a number (only its being zero or not matters here, so an integer stands for it),
  a string, a \<open>Date\<close> (milliseconds; what \<open>new Date()\<close> gives), an array, or an
  object, kept as the list of its own properties (\<open>map_of\<close> reads a key).
\<close>

datatype jsval =
    JUndefined
  | JNull
  | JBool bool
  | JNum int
  | JStr string
  | JDate nat
  | JArr "jsval list"
  | JObj "(string \<times> jsval) list"

datatype error = TypeError

text \<open>The truthiness test of \<open>if (v)\<close>: objects, arrays and dates are always truthy.\<close>

fun truthy :: "jsval \<Rightarrow> bool" where
  "truthy JUndefined = False"
| "truthy JNull = False"
| "truthy (JBool b) = b"
| "truthy (JNum n) = (n \<noteq> 0)"
| "truthy (JStr s) = (s \<noteq> [])"
| "truthy (JDate t) = True"
| "truthy (JArr xs) = True"
| "truthy (JObj kvs) = True"

text \<open>A key that is a canonical array index (\<open>0\<close>, \<open>1\<close>, \<open>17\<close>; not \<open>01\<close>) and its number.\<close>

definition arrayIndex :: "string \<Rightarrow> nat option" where
  "arrayIndex k =
     (if k = [] then None
      else if list_all (\<lambda>c. 48 \<le> (of_char c :: nat) \<and> (of_char c :: nat) \<le> 57) k then
        (if hd k = CHR ''0'' then (if k = ''0'' then Some 0 else None)
         else Some (foldl (\<lambda>n c. 10 * n + ((of_char c :: nat) - 48)) 0 k))
      else None)"

text \<open>
  The own property of a value under a key: an object's listed properties, the elements
  and \<open>length\<close> of an array or string; numbers, booleans and dates have none.
\<close>

fun ownProperty :: "jsval \<Rightarrow> string \<Rightarrow> jsval option" where
  "ownProperty (JObj kvs) k = map_of kvs k"
| "ownProperty (JArr xs) k =
     (if k = ''length'' then Some (JNum (int (length xs)))
      else case arrayIndex k of
             None \<Rightarrow> None
           | Some i \<Rightarrow> if i < length xs then Some (xs ! i) else None)"
| "ownProperty (JStr s) k =
     (if k = ''length'' then Some (JNum (int (length s)))
      else case arrayIndex k of
             None \<Rightarrow> None
           | Some i \<Rightarrow> if i < length s then Some (JStr [s ! i]) else None)"
| "ownProperty v k = None"

text \<open>
  \<open>v.hasOwnProperty(k)\<close>. On \<open>undefined\<close> and \<open>null\<close> the member access throws. The
  method is looked up on the value first: an object of the body that has an own property
  named \<open>hasOwnProperty\<close> shadows the inherited method with a JSON value, which is not
  callable, so the call throws.
\<close>

fun hasOwnProperty :: "jsval \<Rightarrow> string \<Rightarrow> error + bool" where
  "hasOwnProperty JUndefined k = Inl TypeError"
| "hasOwnProperty JNull k = Inl TypeError"
| "hasOwnProperty v k =
     (if ownProperty v ''hasOwnProperty'' \<noteq> None then Inl TypeError
      else Inr (ownProperty v k \<noteq> None))"

text \<open>
  \<open>v.k\<close> and \<open>v[k]\<close>: throws on \<open>undefined\<close> and \<open>null\<close>, else the own property or
  \<open>undefined\<close>. Inherited properties are not modelled: the handlers read the keys
  \<open>domain\<close>, \<open>heartbeat\<close>, \<open>meta\<close>, \<open>num_users\<close>, \<open>num_anon_users\<close> and the
  allow-listed field names only, and no prototype has a property of such a name.
\<close>

fun getProp :: "jsval \<Rightarrow> string \<Rightarrow> error + jsval" where
  "getProp JUndefined k = Inl TypeError"
| "getProp JNull k = Inl TypeError"
| "getProp v k = Inr (case ownProperty v k of None \<Rightarrow> JUndefined | Some x \<Rightarrow> x)"

section \<open>Entities, request context and response\<close>

type_synonym VKeyedCollection = "string \<rightharpoonup> jsval"

text \<open>
  Modelled from the spec: the entity classes \<open>DomainEntity\<close> and \<open>PlaceEntity\<close> are
  declared outside this file. A Domain has its identifier and its other stored fields by
  name (\<open>timeOfLastHeartbeat\<close> among them); a Place has an identifier and the identifier
  of the one Domain it belongs to (its \<open>domainId\<close>).
\<close>

record DomainEntity =
  domainId :: string
  stored :: VKeyedCollection

record PlaceEntity =
  placeId :: string
  placeDomainId :: string

text \<open>
  Modelled from the spec: the roles of \<open>Perm\<close> and the status codes of
  \<open>HTTPStatusCode\<close> that this file names (both enumerations are declared elsewhere).
\<close>

datatype Perm = DOMAIN | SPONSOR | ADMIN

datatype HTTPStatusCode = OK | Unauthorized

text \<open>
  Modelled from the spec: the response envelope \<open>RESTResponse\<close> (declared elsewhere)
  holds a success flag, an optional failure message, a status code, an optional data
  payload and additional top-level fields; \<open>respondFailure\<close> marks it failed with a message.
\<close>

record RESTResponse =
  success :: bool
  message :: "string option"
  HTTPStatus :: HTTPStatusCode
  Data :: "(string \<times> VKeyedCollection) list option"
  additionalFields :: "(string \<times> VKeyedCollection) list"

definition respondFailure :: "string \<Rightarrow> RESTResponse \<Rightarrow> RESTResponse" where
  "respondFailure msg r = r\<lparr>success := False, message := Some msg\<rparr>"

definition addAdditionalField :: "string \<Rightarrow> VKeyedCollection \<Rightarrow> RESTResponse \<Rightarrow> RESTResponse" where
  "addAdditionalField k v r = r\<lparr>additionalFields := additionalFields r @ [(k, v)]\<rparr>"

text \<open>
  What the middleware has attached to the request before a handler runs: the resolved
  Domain or the reason it did not resolve, the credential, the resolved Account, the
  parsed body and the response under construction. Credentials and Accounts are opaque
  to the handlers (\<open>'tok\<close>, \<open>'acct\<close>).
\<close>

record ('tok, 'acct) Request =
  vDomain :: "DomainEntity option"
  vDomainError :: "string option"
  vAuthToken :: "'tok option"
  vAuthAccount :: "'acct option"
  body :: jsval
  vRestResp :: RESTResponse

section \<open>The store and the calls made on it\<close>

text \<open>
  The world a handler runs in: the stored Domains and Places, and the calls the handler
  has made on its collaborators, in order.
\<close>

datatype Call =
    SetDomainField string jsval
  | UpdateEntityFields string VKeyedCollection
  | RemoveDomain string
  | RemovePlace string

record World =
  domains :: "DomainEntity list"
  places :: "PlaceEntity list"
  trace :: "Call list"

text \<open>
  Modelled from the spec: \<open>Domains.updateEntityFields\<close>, \<open>Domains.removeDomain\<close>,
  \<open>Places.enumerateAsync\<close> with a \<open>GenericFilter\<close> on \<open>domainId\<close>, and
  \<open>Places.removePlace\<close> belong to the entity store, which is outside this file. A
  change-set is merged into the stored record of the Domain as one update; removal takes
  the record of that identifier out of the store; the enumeration yields every stored
  Place that matches the filter.
\<close>

definition Domains_updateEntityFields :: "DomainEntity \<Rightarrow> VKeyedCollection \<Rightarrow> World \<Rightarrow> World" where
  "Domains_updateEntityFields d updated W =
     W\<lparr>domains := map (\<lambda>e. if domainId e = domainId d then e\<lparr>stored := stored e ++ updated\<rparr> else e)
                       (domains W),
       trace := trace W @ [UpdateEntityFields (domainId d) updated]\<rparr>"

definition Domains_removeDomain :: "DomainEntity \<Rightarrow> World \<Rightarrow> World" where
  "Domains_removeDomain d W =
     W\<lparr>domains := filter (\<lambda>e. domainId e \<noteq> domainId d) (domains W),
       trace := trace W @ [RemoveDomain (domainId d)]\<rparr>"

definition GenericFilter_domainId :: "string \<Rightarrow> PlaceEntity \<Rightarrow> bool" where
  "GenericFilter_domainId i p = (placeDomainId p = i)"

definition Places_enumerateAsync :: "(PlaceEntity \<Rightarrow> bool) \<Rightarrow> World \<Rightarrow> PlaceEntity list" where
  "Places_enumerateAsync crit W = filter crit (places W)"

definition Places_removePlace :: "PlaceEntity \<Rightarrow> World \<Rightarrow> World" where
  "Places_removePlace p W =
     W\<lparr>places := filter (\<lambda>q. placeId q \<noteq> placeId p) (places W),
       trace := trace W @ [RemovePlace (placeId p)]\<rparr>"

text \<open>How a handler ends: it throws (and \<open>next()\<close> is never reached) or it calls \<open>next()\<close>.\<close>

datatype completion = Threw error | NextCalled

section \<open>GET /api/v1/domains/:domainId\<close>

text \<open>
  \<open>buildDomainInfoV1\<close> is a collaborator outside this file and is a parameter. The
  handler copies the snapshot's \<open>domainId\<close> to \<open>id\<close> (\<open>undefined\<close> when the snapshot
  has none).
\<close>

definition procGetDomainsDomainid ::
  "(DomainEntity \<Rightarrow> VKeyedCollection) \<Rightarrow> ('tok, 'acct) Request \<Rightarrow> World
     \<Rightarrow> completion \<times> World \<times> RESTResponse" where
  "procGetDomainsDomainid buildDomainInfoV1 req W =
     (case vDomain req of
        Some aDomain \<Rightarrow>
          let domainInfo0 = buildDomainInfoV1 aDomain;
              domainInfo = domainInfo0(''id'' \<mapsto>
                 (case domainInfo0 ''domainId'' of None \<Rightarrow> JUndefined | Some v \<Rightarrow> v))
          in (NextCalled, W,
              addAdditionalField ''domain'' domainInfo
                ((vRestResp req)\<lparr>Data := Some [(''domain'', domainInfo)]\<rparr>))
      | None \<Rightarrow>
          (NextCalled, W,
           (respondFailure (case vDomainError req of None \<Rightarrow> ''Domain not found'' | Some m \<Rightarrow> m)
              (vRestResp req))\<lparr>HTTPStatus := Unauthorized\<rparr>))"

section \<open>PUT /api/v1/domains/:domainId\<close>

text \<open>
  The field update engine \<open>setDomainField\<close> and the permission evaluator
  \<open>checkAccessToEntity\<close> are collaborators outside this file and are parameters. The
  engine receives the change-set \<open>updated\<close> and gives it back; every call of it is
  recorded. Inside one request the credential, the Domain and the Account are fixed, so
  the loops below take the engine already applied to them.
\<close>

type_synonym setter = "string \<Rightarrow> jsval \<Rightarrow> VKeyedCollection \<Rightarrow> VKeyedCollection"

type_synonym updating = "VKeyedCollection \<times> Call list"

definition callSetDomainField :: "setter \<Rightarrow> string \<Rightarrow> jsval \<Rightarrow> updating \<Rightarrow> updating" where
  "callSetDomainField setf field v st =
     (case st of (updated, calls) \<Rightarrow> (setf field v updated, calls @ [SetDomainField field v]))"

definition flatFields :: "string list" where
  "flatFields = [''version'', ''protocol'', ''network_addr'', ''network_port'',
     ''automatic_networking'', ''restricted'', ''capacity'', ''description'', ''maturity'',
     ''restriction'', ''hosts'', ''tags'']"

definition metaFields :: "string list" where
  "metaFields = [''capacity'', ''contact_info'', ''description'', ''managers'', ''tags'',
     ''images'', ''maturity'', ''restriction'', ''thumbnail'', ''world_name'']"

text \<open>
  The loop \<open>for (const field of [...]) if (valuesToSet.hasOwnProperty(field)) await
  setDomainField(..., field, valuesToSet[field], ...)\<close>. A throw ends it and keeps what
  was done before.
\<close>

fun setListed :: "setter \<Rightarrow> jsval \<Rightarrow> string list \<Rightarrow> updating \<Rightarrow> error option \<times> updating" where
  "setListed setf valuesToSet [] st = (None, st)"
| "setListed setf valuesToSet (field # rest) st =
     (case hasOwnProperty valuesToSet field of
        Inl e \<Rightarrow> (Some e, st)
      | Inr False \<Rightarrow> setListed setf valuesToSet rest st
      | Inr True \<Rightarrow>
          (case getProp valuesToSet field of
             Inl e \<Rightarrow> (Some e, st)
           | Inr v \<Rightarrow> setListed setf valuesToSet rest (callSetDomainField setf field v st)))"

text \<open>
  The \<open>heartbeat\<close> block: both arguments \<open>valuesToSet.heartbeat.num_users\<close> and
  \<open>valuesToSet.heartbeat.num_anon_users\<close> are read from the heartbeat value, each just
  before its call.
\<close>

definition setHeartbeat :: "setter \<Rightarrow> jsval \<Rightarrow> updating \<Rightarrow> error option \<times> updating" where
  "setHeartbeat setf valuesToSet st =
     (case hasOwnProperty valuesToSet ''heartbeat'' of
        Inl e \<Rightarrow> (Some e, st)
      | Inr False \<Rightarrow> (None, st)
      | Inr True \<Rightarrow>
          (case getProp valuesToSet ''heartbeat'' of
             Inl e \<Rightarrow> (Some e, st)
           | Inr hb \<Rightarrow>
               (case getProp hb ''num_users'' of
                  Inl e \<Rightarrow> (Some e, st)
                | Inr nu \<Rightarrow>
                    let st1 = callSetDomainField setf ''num_users'' nu st in
                    (case getProp hb ''num_anon_users'' of
                       Inl e \<Rightarrow> (Some e, st1)
                     | Inr na \<Rightarrow> (None, callSetDomainField setf ''num_anon_users'' na st1)))))"

text \<open>The \<open>meta\<close> block: entered when \<open>valuesToSet.meta\<close> is truthy.\<close>

definition setMeta :: "setter \<Rightarrow> jsval \<Rightarrow> updating \<Rightarrow> error option \<times> updating" where
  "setMeta setf valuesToSet st =
     (case getProp valuesToSet ''meta'' of
        Inl e \<Rightarrow> (Some e, st)
      | Inr m \<Rightarrow> if truthy m then setListed setf m metaFields st else (None, st))"

text \<open>The three blocks in the order of the source, stopping at the first throw.\<close>

definition collectUpdates :: "setter \<Rightarrow> jsval \<Rightarrow> updating \<Rightarrow> error option \<times> updating" where
  "collectUpdates setf valuesToSet st =
     (case setListed setf valuesToSet flatFields st of
        (Some e, st1) \<Rightarrow> (Some e, st1)
      | (None, st1) \<Rightarrow>
          (case setHeartbeat setf valuesToSet st1 of
             (Some e, st2) \<Rightarrow> (Some e, st2)
           | (None, st2) \<Rightarrow> setMeta setf valuesToSet st2))"

definition procPutDomains ::
  "('tok option \<Rightarrow> DomainEntity \<Rightarrow> Perm list \<Rightarrow> bool)
     \<Rightarrow> ('tok option \<Rightarrow> DomainEntity \<Rightarrow> string \<Rightarrow> jsval \<Rightarrow> 'acct option \<Rightarrow> VKeyedCollection \<Rightarrow> VKeyedCollection)
     \<Rightarrow> nat \<Rightarrow> ('tok, 'acct) Request \<Rightarrow> World \<Rightarrow> completion \<times> World \<times> RESTResponse" where
  "procPutDomains checkAccessToEntity setDomainField now req W =
     (case vDomain req of
        Some d \<Rightarrow>
          if checkAccessToEntity (vAuthToken req) d [DOMAIN, SPONSOR, ADMIN] then
            (case getProp (body req) ''domain'' of
               Inl e \<Rightarrow> (Threw e, W, vRestResp req)
             | Inr valuesToSet \<Rightarrow>
                 if truthy valuesToSet then
                   (case collectUpdates
                           (\<lambda>field v updated.
                              setDomainField (vAuthToken req) d field v (vAuthAccount req) updated)
                           valuesToSet (Map.empty, trace W) of
                      (Some e, (updated, calls)) \<Rightarrow> (Threw e, W\<lparr>trace := calls\<rparr>, vRestResp req)
                    | (None, (updated, calls)) \<Rightarrow>
                        (NextCalled,
                         Domains_updateEntityFields d
                           (updated(''timeOfLastHeartbeat'' \<mapsto> JDate now)) (W\<lparr>trace := calls\<rparr>),
                         vRestResp req))
                 else (NextCalled, W, respondFailure ''badly formed data'' (vRestResp req)))
          else (NextCalled, W, respondFailure ''Unauthorized'' (vRestResp req))
      | None \<Rightarrow>
          (NextCalled, W,
           (respondFailure (case vDomainError req of None \<Rightarrow> ''Domain not found'' | Some m \<Rightarrow> m)
              (vRestResp req))\<lparr>HTTPStatus := Unauthorized\<rparr>))"

section \<open>DELETE /api/v1/domains/:domainId\<close>

text \<open>\<open>Accounts.isAdmin\<close> is a collaborator outside this file and is a parameter.\<close>

definition procDeleteDomains ::
  "('acct \<Rightarrow> bool) \<Rightarrow> ('tok, 'acct) Request \<Rightarrow> World \<Rightarrow> completion \<times> World \<times> RESTResponse" where
  "procDeleteDomains isAdmin req W =
     (case vAuthAccount req of
        Some a \<Rightarrow>
          if isAdmin a then
            (case vDomain req of
               Some d \<Rightarrow>
                 let W1 = Domains_removeDomain d W in
                 (NextCalled,
                  fold Places_removePlace
                    (Places_enumerateAsync (GenericFilter_domainId (domainId d)) W1) W1,
                  vRestResp req)
             | None \<Rightarrow>
                 (NextCalled, W, respondFailure ''Target domain does not exist'' (vRestResp req)))
          else (NextCalled, W, respondFailure ''Not authorized'' (vRestResp req))
      | None \<Rightarrow> (NextCalled, W, respondFailure ''Not authorized'' (vRestResp req)))"

section \<open>Reading the calls and the result of a handler\<close>

text \<open>The field names passed to the field update engine, in call order.\<close>

fun engineFields :: "Call list \<Rightarrow> string list" where
  "engineFields [] = []"
| "engineFields (SetDomainField f v # cs) = f # engineFields cs"
| "engineFields (c # cs) = engineFields cs"

text \<open>
  The (field, value) pairs an object payload offers for a list of field names, in the
  order of the list: what the allow-list loops are expected to pass to the engine.
\<close>

definition presentFields :: "string list \<Rightarrow> (string \<times> jsval) list \<Rightarrow> (string \<times> jsval) list" where
  "presentFields fs kvs = List.map_filter (\<lambda>f. map_option (Pair f) (map_of kvs f)) fs"

text \<open>The two derived fields a \<open>heartbeat\<close> property expands to.\<close>

definition heartbeatFields :: "(string \<times> jsval) list \<Rightarrow> (string \<times> jsval) list" where
  "heartbeatFields kvs =
     (case map_of kvs ''heartbeat'' of
        None \<Rightarrow> []
      | Some hb \<Rightarrow>
          [(''num_users'', case ownProperty hb ''num_users'' of None \<Rightarrow> JUndefined | Some x \<Rightarrow> x),
           (''num_anon_users'', case ownProperty hb ''num_anon_users'' of None \<Rightarrow> JUndefined | Some x \<Rightarrow> x)])"

text \<open>Passing a list of pairs to the engine one after the other.\<close>

definition applyFields :: "setter \<Rightarrow> (string \<times> jsval) list \<Rightarrow> updating \<Rightarrow> updating" where
  "applyFields setf fvs st = fold (\<lambda>fv. callSetDomainField setf (fst fv) (snd fv)) fvs st"

text \<open>Every field name the PUT handler can pass to the engine.\<close>

definition engineNames :: "string list" where
  "engineNames = flatFields @ [''num_users'', ''num_anon_users''] @ metaFields"

text \<open>The components of a handler's result, and the calls a handler added to the trace.\<close>

definition completionOf :: "completion \<times> World \<times> RESTResponse \<Rightarrow> completion" where
  "completionOf res = fst res"

definition worldOf :: "completion \<times> World \<times> RESTResponse \<Rightarrow> World" where
  "worldOf res = fst (snd res)"

definition responseOf :: "completion \<times> World \<times> RESTResponse \<Rightarrow> RESTResponse" where
  "responseOf res = snd (snd res)"

definition newCalls :: "World \<Rightarrow> World \<Rightarrow> Call list" where
  "newCalls W W' = drop (length (trace W)) (trace W')"

text \<open>The value a call commits under a key: that of the change-set, for a commit.\<close>

fun committedValue :: "Call \<Rightarrow> string \<Rightarrow> jsval option" where
  "committedValue (UpdateEntityFields i updated) k = updated k"
| "committedValue c k = None"

section \<open>Sample data\<close>

text \<open>
  Concrete inputs at which the theorems below are instantiated: a fresh response, a
  stored Domain \<open>d1\<close> last heard of at time 5, a store with that Domain and three
  Places (two of them of \<open>d1\<close>), requests built from a resolved Domain, an Account
  and a body, an engine that accepts every value under the name of its field, an
  administrator test, and permission evaluators that grant or deny everything.
\<close>

definition sampleResp :: RESTResponse where
  "sampleResp = \<lparr>success = True, message = None, HTTPStatus = OK, Data = None, additionalFields = []\<rparr>"

definition sampleDomain :: DomainEntity where
  "sampleDomain = \<lparr>domainId = ''d1'', stored = [''timeOfLastHeartbeat'' \<mapsto> JDate 5]\<rparr>"

definition sampleWorld :: World where
  "sampleWorld =
     \<lparr>domains = [sampleDomain],
      places = [\<lparr>placeId = ''p1'', placeDomainId = ''d1''\<rparr>,
                \<lparr>placeId = ''p2'', placeDomainId = ''d2''\<rparr>,
                \<lparr>placeId = ''p3'', placeDomainId = ''d1''\<rparr>],
      trace = []\<rparr>"

definition sampleRequest :: "DomainEntity option \<Rightarrow> string option \<Rightarrow> jsval \<Rightarrow> (string, string) Request" where
  "sampleRequest resolved acct b =
     \<lparr>vDomain = resolved, vDomainError = None, vAuthToken = Some ''token'', vAuthAccount = acct,
      body = b, vRestResp = sampleResp\<rparr>"

definition storingEngine ::
  "string option \<Rightarrow> DomainEntity \<Rightarrow> string \<Rightarrow> jsval \<Rightarrow> string option \<Rightarrow> VKeyedCollection \<Rightarrow> VKeyedCollection" where
  "storingEngine tok d field v acct updated = updated(field \<mapsto> v)"

definition sampleIsAdmin :: "string \<Rightarrow> bool" where
  "sampleIsAdmin a = (a = ''admin'')"

definition grantAll :: "string option \<Rightarrow> DomainEntity \<Rightarrow> Perm list \<Rightarrow> bool" where
  "grantAll tok d perms = True"

definition denyAll :: "string option \<Rightarrow> DomainEntity \<Rightarrow> Perm list \<Rightarrow> bool" where
  "denyAll tok d perms = False"

lemmas sample_defs = sampleResp_def sampleDomain_def sampleWorld_def sampleRequest_def
  storingEngine_def grantAll_def denyAll_def sampleIsAdmin_def

section \<open>Properties of the update loops\<close>

text \<open>
  An invariant that every call of the engine with a listed field name preserves holds
  after each loop, whether the loop ends or throws.
\<close>

lemma engineFields_append: "engineFields (xs @ ys) = engineFields xs @ engineFields ys"
  by (induction xs rule: engineFields.induct) simp_all

lemma applyFields_append: "applyFields setf (xs @ ys) st = applyFields setf ys (applyFields setf xs st)"
  by (simp add: applyFields_def)

lemma setListed_inv:
  assumes step: "\<And>g v s. g \<in> set fs \<Longrightarrow> I s \<Longrightarrow> I (callSetDomainField setf g v s)"
    and init: "I st"
  shows "I (snd (setListed setf vs fs st))"
  using assms
proof (induction fs arbitrary: st)
  case Nil
  then show ?case by simp
next
  case (Cons f fs)
  show ?case
  proof (cases "hasOwnProperty vs f")
    case (Inl e)
    then show ?thesis using Cons.prems by simp
  next
    case (Inr b)
    show ?thesis
    proof (cases b)
      case False
      then show ?thesis using Inr Cons by simp
    next
      case True
      show ?thesis
      proof (cases "getProp vs f")
        case (Inl e)
        then show ?thesis using Inr True Cons.prems by simp
      next
        case (Inr v)
        have "I (callSetDomainField setf f v st)" using Cons.prems by simp
        then have "I (snd (setListed setf vs fs (callSetDomainField setf f v st)))"
          using Cons.IH Cons.prems(1) by simp
        then show ?thesis using \<open>hasOwnProperty vs f = Inr b\<close> True Inr by simp
      qed
    qed
  qed
qed

lemma setHeartbeat_inv:
  assumes step: "\<And>g v s. g \<in> {''num_users'', ''num_anon_users''} \<Longrightarrow> I s \<Longrightarrow> I (callSetDomainField setf g v s)"
    and init: "I st"
  shows "I (snd (setHeartbeat setf vs st))"
  using assms
  by (auto simp: setHeartbeat_def Let_def split: sum.splits bool.splits)

lemma setMeta_inv:
  assumes step: "\<And>g v s. g \<in> set metaFields \<Longrightarrow> I s \<Longrightarrow> I (callSetDomainField setf g v s)"
    and init: "I st"
  shows "I (snd (setMeta setf vs st))"
  using setListed_inv [of metaFields I setf st] assms
  by (auto simp: setMeta_def split: sum.splits)

lemma collectUpdates_inv:
  assumes step: "\<And>g v s. g \<in> set engineNames \<Longrightarrow> I s \<Longrightarrow> I (callSetDomainField setf g v s)"
    and init: "I st"
  shows "I (snd (collectUpdates setf vs st))"
proof -
  have 1: "I (snd (setListed setf vs flatFields st))"
    by (rule setListed_inv) (use assms in \<open>auto simp: engineNames_def\<close>)
  have 2: "I (snd (setHeartbeat setf vs s))" if "I s" for s
    by (rule setHeartbeat_inv) (use assms that in \<open>auto simp: engineNames_def\<close>)
  have 3: "I (snd (setMeta setf vs s))" if "I s" for s
    by (rule setMeta_inv) (use assms that in \<open>auto simp: engineNames_def\<close>)
  obtain r1 s1 where e1: "setListed setf vs flatFields st = (r1, s1)" by (cases "setListed setf vs flatFields st")
  obtain r2 s2 where e2: "setHeartbeat setf vs s1 = (r2, s2)" by (cases "setHeartbeat setf vs s1")
  have i1: "I s1" using 1 e1 by simp
  have i2: "I s2" using 2 [OF i1] e2 by simp
  have i3: "I (snd (setMeta setf vs s2))" using 3 [OF i2] .
  show ?thesis
    using e1 e2 i1 i2 i3 by (cases r1; cases r2) (simp_all add: collectUpdates_def)
qed

lemma presentFields_Nil: "presentFields [] kvs = []"
  by (simp add: presentFields_def)

lemma presentFields_Cons:
  "presentFields (f # fs) kvs =
     (case map_of kvs f of None \<Rightarrow> presentFields fs kvs | Some v \<Rightarrow> (f, v) # presentFields fs kvs)"
  by (simp add: presentFields_def split: option.splits)

lemma applyFields_Nil: "applyFields setf [] st = st"
  by (simp add: applyFields_def)

lemma applyFields_Cons:
  "applyFields setf (fv # fvs) st = applyFields setf fvs (callSetDomainField setf (fst fv) (snd fv) st)"
  by (simp add: applyFields_def)

lemma setListed_obj:
  assumes "map_of kvs ''hasOwnProperty'' = None"
  shows "setListed setf (JObj kvs) fs st = (None, applyFields setf (presentFields fs kvs) st)"
proof (induction fs arbitrary: st)
  case Nil
  show ?case by (simp add: presentFields_Nil applyFields_Nil)
next
  case (Cons f fs)
  show ?case
  proof (cases "map_of kvs f")
    case None
    then show ?thesis using assms Cons.IH by (simp add: presentFields_Cons)
  next
    case (Some v)
    then show ?thesis using assms Cons.IH by (simp add: presentFields_Cons applyFields_Cons)
  qed
qed

lemma getProp_Inr:
  "v \<noteq> JNull \<Longrightarrow> v \<noteq> JUndefined \<Longrightarrow>
     getProp v k = Inr (case ownProperty v k of None \<Rightarrow> JUndefined | Some x \<Rightarrow> x)"
  by (cases v) simp_all

lemma setHeartbeat_obj:
  assumes "map_of kvs ''hasOwnProperty'' = None"
    and "map_of kvs ''heartbeat'' \<noteq> Some JNull" and "map_of kvs ''heartbeat'' \<noteq> Some JUndefined"
  shows "setHeartbeat setf (JObj kvs) st = (None, applyFields setf (heartbeatFields kvs) st)"
proof (cases "map_of kvs ''heartbeat''")
  case None
  then show ?thesis using assms by (simp add: setHeartbeat_def heartbeatFields_def applyFields_Nil)
next
  case (Some hb)
  then have "hb \<noteq> JNull" "hb \<noteq> JUndefined" using assms by auto
  then show ?thesis using Some assms(1)
    by (simp add: setHeartbeat_def heartbeatFields_def applyFields_Cons applyFields_Nil getProp_Inr Let_def)
qed

lemma setMeta_obj:
  assumes "map_of kvs ''meta'' = Some (JObj ms)" and "map_of ms ''hasOwnProperty'' = None"
  shows "setMeta setf (JObj kvs) st = (None, applyFields setf (presentFields metaFields ms) st)"
  using assms by (simp add: setMeta_def setListed_obj)

lemma collectUpdates_obj:
  assumes "map_of kvs ''hasOwnProperty'' = None"
    and "map_of kvs ''heartbeat'' \<noteq> Some JNull" and "map_of kvs ''heartbeat'' \<noteq> Some JUndefined"
    and "map_of kvs ''meta'' = Some (JObj ms)" and "map_of ms ''hasOwnProperty'' = None"
  shows "collectUpdates setf (JObj kvs) st =
           (None, applyFields setf
                    (presentFields flatFields kvs @ heartbeatFields kvs @ presentFields metaFields ms) st)"
  using assms
  by (simp add: collectUpdates_def setListed_obj setHeartbeat_obj setMeta_obj applyFields_append)

lemma applyFields_trace:
  "snd (applyFields setf fvs st) = snd st @ map (\<lambda>fv. SetDomainField (fst fv) (snd fv)) fvs"
proof (induction fvs arbitrary: st)
  case Nil
  show ?case by (simp add: applyFields_Nil)
next
  case (Cons fv fvs)
  show ?case by (simp add: applyFields_Cons Cons.IH callSetDomainField_def split: prod.splits)
qed

lemma engineFields_map: "engineFields (map (\<lambda>fv. SetDomainField (fst fv) (snd fv)) fvs) = map fst fvs"
  by (induction fvs) simp_all

lemma engineFields_calls:
  "engineFields (map (\<lambda>fv. SetDomainField (fst fv) (snd fv)) fvs @ rest) = map fst fvs @ engineFields rest"
  by (simp add: engineFields_append engineFields_map)

lemma callSetDomainField_snd:
  "snd (callSetDomainField setf g v s) = snd s @ [SetDomainField g v]"
  by (simp add: callSetDomainField_def split: prod.splits)

lemma callSetDomainField_fst:
  "fst (callSetDomainField setf g v s) = setf g v (fst s)"
  by (simp add: callSetDomainField_def split: prod.splits)

lemma collectUpdates_calls:
  "\<exists>fvs. snd (snd (collectUpdates setf vs (u, cs))) = cs @ map (\<lambda>fv. SetDomainField (fst fv) (snd fv)) fvs
         \<and> set (map fst fvs) \<subseteq> set engineNames"
proof -
  let ?I = "\<lambda>s. \<exists>fvs. snd s = cs @ map (\<lambda>fv. SetDomainField (fst fv) (snd fv)) fvs
                    \<and> set (map fst fvs) \<subseteq> set engineNames"
  have "?I (snd (collectUpdates setf vs (u, cs)))"
  proof (rule collectUpdates_inv)
    show "?I (u, cs)" by (rule exI [of _ "[]"]) simp
  next
    fix g v and s :: updating
    assume g: "g \<in> set engineNames" and "?I s"
    then obtain fvs where fvs: "snd s = cs @ map (\<lambda>fv. SetDomainField (fst fv) (snd fv)) fvs"
      "set (map fst fvs) \<subseteq> set engineNames" by blast
    show "?I (callSetDomainField setf g v s)"
      by (rule exI [of _ "fvs @ [(g, v)]"]) (use fvs g in \<open>simp add: callSetDomainField_snd\<close>)
  qed
  then show ?thesis .
qed

lemma collectUpdates_frame:
  assumes "f \<notin> set engineNames" and "\<And>g v u. g \<noteq> f \<Longrightarrow> setf g v u f = u f"
  shows "fst (snd (collectUpdates setf vs (u, cs))) f = u f"
proof -
  have "fst (snd (collectUpdates setf vs (u, cs))) f = u f"
  proof (rule collectUpdates_inv [where I = "\<lambda>s. fst s f = u f"])
    show "fst (u, cs) f = u f" by simp
  next
    fix g v and s :: updating
    assume "g \<in> set engineNames" and s: "fst s f = u f"
    then have "g \<noteq> f" using assms(1) by auto
    then show "fst (callSetDomainField setf g v s) f = u f"
      using assms(2) s by (simp add: callSetDomainField_fst)
  qed
  then show ?thesis .
qed

lemma collectUpdates_empty_object:
  "collectUpdates setf (JObj []) st = (None, st)"
  by (simp add: collectUpdates_def flatFields_def metaFields_def setHeartbeat_def setMeta_def)

section \<open>The branches of the PUT handler\<close>

lemma procPut_unresolved:
  "vDomain req = None \<Longrightarrow>
     procPutDomains chk eng now req W =
       (NextCalled, W,
        (respondFailure (case vDomainError req of None \<Rightarrow> ''Domain not found'' | Some m \<Rightarrow> m)
           (vRestResp req))\<lparr>HTTPStatus := Unauthorized\<rparr>)"
  by (simp add: procPutDomains_def)

lemma procPut_denied:
  "vDomain req = Some d \<Longrightarrow> \<not> chk (vAuthToken req) d [DOMAIN, SPONSOR, ADMIN] \<Longrightarrow>
     procPutDomains chk eng now req W = (NextCalled, W, respondFailure ''Unauthorized'' (vRestResp req))"
  by (simp add: procPutDomains_def)

lemma procPut_falsy:
  "vDomain req = Some d \<Longrightarrow> chk (vAuthToken req) d [DOMAIN, SPONSOR, ADMIN] \<Longrightarrow>
   getProp (body req) ''domain'' = Inr v \<Longrightarrow> \<not> truthy v \<Longrightarrow>
     procPutDomains chk eng now req W = (NextCalled, W, respondFailure ''badly formed data'' (vRestResp req))"
  by (simp add: procPutDomains_def)

lemma procPut_present:
  "vDomain req = Some d \<Longrightarrow> chk (vAuthToken req) d [DOMAIN, SPONSOR, ADMIN] \<Longrightarrow>
   getProp (body req) ''domain'' = Inr v \<Longrightarrow> truthy v \<Longrightarrow>
   collectUpdates (\<lambda>field v updated. eng (vAuthToken req) d field v (vAuthAccount req) updated)
      v (Map.empty, trace W) = (r, (updated, calls)) \<Longrightarrow>
     procPutDomains chk eng now req W =
       (case r of
          Some e \<Rightarrow> (Threw e, W\<lparr>trace := calls\<rparr>, vRestResp req)
        | None \<Rightarrow> (NextCalled,
                    Domains_updateEntityFields d (updated(''timeOfLastHeartbeat'' \<mapsto> JDate now))
                      (W\<lparr>trace := calls\<rparr>),
                    vRestResp req))"
  by (simp add: procPutDomains_def split: option.splits)

lemma procPut_outcome:
  obtains (quiet) "worldOf (procPutDomains chk eng now req W) = W"
  | (threw) e fvs where
      "procPutDomains chk eng now req W =
         (Threw e, W\<lparr>trace := trace W @ map (\<lambda>fv. SetDomainField (fst fv) (snd fv)) fvs\<rparr>, vRestResp req)"
      "set (map fst fvs) \<subseteq> set engineNames"
  | (committed) d v updated fvs where
      "vDomain req = Some d"
      "collectUpdates (\<lambda>field v updated. eng (vAuthToken req) d field v (vAuthAccount req) updated)
         v (Map.empty, trace W)
       = (None, (updated, trace W @ map (\<lambda>fv. SetDomainField (fst fv) (snd fv)) fvs))"
      "set (map fst fvs) \<subseteq> set engineNames"
      "procPutDomains chk eng now req W =
         (NextCalled,
          Domains_updateEntityFields d (updated(''timeOfLastHeartbeat'' \<mapsto> JDate now))
            (W\<lparr>trace := trace W @ map (\<lambda>fv. SetDomainField (fst fv) (snd fv)) fvs\<rparr>),
          vRestResp req)"
proof (cases "vDomain req")
  case None
  then show ?thesis using quiet by (simp add: procPut_unresolved worldOf_def)
next
  case (Some d)
  show ?thesis
  proof (cases "chk (vAuthToken req) d [DOMAIN, SPONSOR, ADMIN]")
    case False
    then show ?thesis using Some quiet by (simp add: procPut_denied worldOf_def)
  next
    case True
    show ?thesis
    proof (cases "getProp (body req) ''domain''")
      case (Inl e)
      then show ?thesis using Some True quiet by (simp add: procPutDomains_def worldOf_def)
    next
      case (Inr v)
      show ?thesis
      proof (cases "truthy v")
        case False
        then show ?thesis using Some True Inr quiet by (simp add: procPut_falsy worldOf_def)
      next
        case tv: True
        let ?setf = "\<lambda>field v updated. eng (vAuthToken req) d field v (vAuthAccount req) updated"
        obtain r updated calls where c: "collectUpdates ?setf v (Map.empty, trace W) = (r, (updated, calls))"
          by (metis prod.collapse)
        obtain fvs where fvs: "calls = trace W @ map (\<lambda>fv. SetDomainField (fst fv) (snd fv)) fvs"
          "set (map fst fvs) \<subseteq> set engineNames"
          using collectUpdates_calls [of ?setf v Map.empty "trace W"] c by auto
        have res: "procPutDomains chk eng now req W =
            (case r of
               Some e \<Rightarrow> (Threw e, W\<lparr>trace := calls\<rparr>, vRestResp req)
             | None \<Rightarrow> (NextCalled,
                    Domains_updateEntityFields d (updated(''timeOfLastHeartbeat'' \<mapsto> JDate now))
                      (W\<lparr>trace := calls\<rparr>),
                    vRestResp req))"
          using Some True Inr tv c by (rule procPut_present)
        show ?thesis
        proof (cases r)
          case None
          show ?thesis
            by (rule committed [of d v updated fvs]) (use Some c fvs res None in simp_all)
        next
          case (Some e)
          show ?thesis
            by (rule threw [of e fvs]) (use c fvs res Some in simp_all)
        qed
      qed
    qed
  qed
qed

lemma updateEntityFields_stored:
  "updated f = None \<Longrightarrow>
     map (\<lambda>e. stored e f) (domains (Domains_updateEntityFields d updated W)) = map (\<lambda>e. stored e f) (domains W)"
  by (simp add: Domains_updateEntityFields_def map_add_def)

lemma accepted_put_commits_once:
  assumes "vDomain req = Some d"
    and "checkAccessToEntity (vAuthToken req) d [DOMAIN, SPONSOR, ADMIN]"
    and "getProp (body req) ''domain'' = Inr v" and "truthy v"
    and "completionOf (procPutDomains checkAccessToEntity setDomainField now req W) = NextCalled"
  shows "\<exists>updated fvs.
           newCalls W (worldOf (procPutDomains checkAccessToEntity setDomainField now req W)) =
             map (\<lambda>fv. SetDomainField (fst fv) (snd fv)) fvs
               @ [UpdateEntityFields (domainId d) (updated(''timeOfLastHeartbeat'' \<mapsto> JDate now))]
           \<and> map (\<lambda>e. stored e ''timeOfLastHeartbeat'')
               (filter (\<lambda>e. domainId e = domainId d)
                  (domains (worldOf (procPutDomains checkAccessToEntity setDomainField now req W))))
             = map (\<lambda>e. Some (JDate now)) (filter (\<lambda>e. domainId e = domainId d) (domains W))"
proof -
  let ?setf = "\<lambda>field v updated. setDomainField (vAuthToken req) d field v (vAuthAccount req) updated"
  obtain r updated calls where c: "collectUpdates ?setf v (Map.empty, trace W) = (r, (updated, calls))"
    by (metis prod.collapse)
  obtain fvs where fvs: "calls = trace W @ map (\<lambda>fv. SetDomainField (fst fv) (snd fv)) fvs"
    using collectUpdates_calls [of ?setf v Map.empty "trace W"] c by auto
  have res: "procPutDomains checkAccessToEntity setDomainField now req W =
            (case r of
               Some e \<Rightarrow> (Threw e, W\<lparr>trace := calls\<rparr>, vRestResp req)
             | None \<Rightarrow> (NextCalled,
                    Domains_updateEntityFields d (updated(''timeOfLastHeartbeat'' \<mapsto> JDate now))
                      (W\<lparr>trace := calls\<rparr>),
                    vRestResp req))"
    using assms(1-4) c by (rule procPut_present)
  then have r: "r = None" using assms(5) by (cases r) (simp_all add: completionOf_def)
  have stamp: "map (\<lambda>e. stored e ''timeOfLastHeartbeat'')
          (filter (\<lambda>e. domainId e = domainId d)
             (map (\<lambda>e. if domainId e = domainId d then e\<lparr>stored := stored e ++ u\<rparr> else e) ds))
        = map (\<lambda>e. Some (JDate now)) (filter (\<lambda>e. domainId e = domainId d) ds)"
    if "u ''timeOfLastHeartbeat'' = Some (JDate now)" for u and ds :: "DomainEntity list"
    using that by (induction ds) simp_all
  show ?thesis
    apply (rule exI [of _ updated], rule exI [of _ fvs])
    using res r fvs stamp [of "updated(''timeOfLastHeartbeat'' \<mapsto> JDate now)" "domains W"]
    by (simp add: newCalls_def worldOf_def Domains_updateEntityFields_def)
qed

section \<open>The branches of the DELETE handler\<close>


lemma procDelete_not_admin:
  "vAuthAccount req = None \<or> (\<exists>a. vAuthAccount req = Some a \<and> \<not> isAdmin a) \<Longrightarrow>
     procDeleteDomains isAdmin req W = (NextCalled, W, respondFailure ''Not authorized'' (vRestResp req))"
  by (auto simp: procDeleteDomains_def)

lemma procDelete_no_domain:
  "vAuthAccount req = Some a \<Longrightarrow> isAdmin a \<Longrightarrow> vDomain req = None \<Longrightarrow>
     procDeleteDomains isAdmin req W =
       (NextCalled, W, respondFailure ''Target domain does not exist'' (vRestResp req))"
  by (simp add: procDeleteDomains_def)



section \<open>The claims\<close>

text \<open>
  C1. A PUT on a resolved Domain by a caller whose credential satisfies none of the roles
  DOMAIN, SPONSOR, ADMIN for it (the permission evaluator answers no) responds with the
  failure message \<open>Unauthorized\<close> and leaves the world as it was: no call of the
  engine, no commit, no change of any stored field, \<open>timeOfLastHeartbeat\<close> included.
\<close>

theorem unauthorized_put_commits_nothing:
  assumes "vDomain req = Some d"
    and "\<not> checkAccessToEntity (vAuthToken req) d [DOMAIN, SPONSOR, ADMIN]"
  shows "procPutDomains checkAccessToEntity setDomainField now req W =
           (NextCalled, W, respondFailure ''Unauthorized'' (vRestResp req))
         \<and> message (respondFailure ''Unauthorized'' (vRestResp req)) = Some ''Unauthorized''
         \<and> success (respondFailure ''Unauthorized'' (vRestResp req)) = False"
  using assms by (simp add: procPut_denied respondFailure_def)

theorem unauthorized_put_commits_nothing_witness:
  "vDomain (sampleRequest (Some sampleDomain) None (JObj [(''domain'', JObj [(''capacity'', JNum 10)])])) = Some sampleDomain
   \<and> \<not> denyAll (Some ''token'') sampleDomain [DOMAIN, SPONSOR, ADMIN]
   \<and> procPutDomains denyAll storingEngine 9
        (sampleRequest (Some sampleDomain) None (JObj [(''domain'', JObj [(''capacity'', JNum 10)])])) sampleWorld
      = (NextCalled, sampleWorld, sampleResp\<lparr>success := False, message := Some ''Unauthorized''\<rparr>)"
  using unauthorized_put_commits_nothing
    [of "sampleRequest (Some sampleDomain) None (JObj [(''domain'', JObj [(''capacity'', JNum 10)])])"
        sampleDomain denyAll storingEngine 9 sampleWorld]
  by (simp add: sampleRequest_def denyAll_def respondFailure_def)

text \<open>
  C2, amended. For a field name \<open>f\<close> outside the flat allow-list, the meta allow-list
  and \<open>num_users\<close>, \<open>num_anon_users\<close>: no PUT passes \<open>f\<close> to the field update
  engine, whatever the credential, the body and the outcome; and when \<open>f\<close> is not
  \<open>timeOfLastHeartbeat\<close> and the engine writes into the change-set only under the name
  of the field it is called with, the stored value of \<open>f\<close> is the same after the PUT in
  every stored Domain.
\<close>

theorem unlisted_field_is_never_set:
  assumes "f \<notin> set flatFields" and "f \<notin> set metaFields"
    and "f \<noteq> ''num_users''" and "f \<noteq> ''num_anon_users''"
  shows "f \<notin> set (engineFields (newCalls W (worldOf (procPutDomains checkAccessToEntity setDomainField now req W))))
       \<and> (f \<noteq> ''timeOfLastHeartbeat''
            \<and> (\<forall>tok d g v acct updated. g \<noteq> f \<longrightarrow> setDomainField tok d g v acct updated f = updated f) \<longrightarrow>
          map (\<lambda>e. stored e f) (domains (worldOf (procPutDomains checkAccessToEntity setDomainField now req W)))
            = map (\<lambda>e. stored e f) (domains W))"
proof -
  have f: "f \<notin> set engineNames" using assms by (simp add: engineNames_def)
  show ?thesis
  proof (cases rule: procPut_outcome [of checkAccessToEntity setDomainField now req W])
    case quiet
    then show ?thesis by (simp add: newCalls_def)
  next
    case (threw e fvs)
    then show ?thesis using f by (auto simp: newCalls_def worldOf_def engineFields_map)
  next
    case (committed d v updated fvs)
    have calls: "f \<notin> set (engineFields (newCalls W (worldOf (procPutDomains checkAccessToEntity setDomainField now req W))))"
      using committed(3,4) f
      by (auto simp: newCalls_def worldOf_def Domains_updateEntityFields_def engineFields_calls)
    have "map (\<lambda>e. stored e f) (domains (worldOf (procPutDomains checkAccessToEntity setDomainField now req W)))
            = map (\<lambda>e. stored e f) (domains W)"
      if "f \<noteq> ''timeOfLastHeartbeat''"
        and frame: "\<forall>tok d g v acct updated. g \<noteq> f \<longrightarrow> setDomainField tok d g v acct updated f = updated f"
    proof -
      have "fst (snd (collectUpdates
                (\<lambda>field v updated. setDomainField (vAuthToken req) d field v (vAuthAccount req) updated)
                v (Map.empty, trace W))) f = Map.empty f"
        by (rule collectUpdates_frame [OF f]) (use frame in simp)
      then have "updated f = None" using committed(2) by simp
      then have "(updated(''timeOfLastHeartbeat'' \<mapsto> JDate now)) f = None" using that(1) by simp
      then show ?thesis
        using committed(4) updateEntityFields_stored [of "updated(''timeOfLastHeartbeat'' \<mapsto> JDate now)" f d]
        by (simp add: worldOf_def)
    qed
    then show ?thesis using calls by blast
  qed
qed

theorem unlisted_field_is_never_set_witness:
  "''password_hash'' \<notin> set flatFields \<and> ''password_hash'' \<notin> set metaFields
   \<and> ''password_hash'' \<notin> set (engineFields (newCalls sampleWorld (worldOf
        (procPutDomains grantAll storingEngine 9
           (sampleRequest (Some sampleDomain) None
              (JObj [(''domain'', JObj [(''password_hash'', JStr ''x''), (''capacity'', JNum 10)])]))
           sampleWorld))))
   \<and> map (\<lambda>e. stored e ''password_hash'') (domains (worldOf
        (procPutDomains grantAll storingEngine 9
           (sampleRequest (Some sampleDomain) None
              (JObj [(''domain'', JObj [(''password_hash'', JStr ''x''), (''capacity'', JNum 10)])]))
           sampleWorld)))
      = map (\<lambda>e. stored e ''password_hash'') (domains sampleWorld)"
  using unlisted_field_is_never_set
    [of "''password_hash''" sampleWorld grantAll storingEngine 9
        "sampleRequest (Some sampleDomain) None
              (JObj [(''domain'', JObj [(''password_hash'', JStr ''x''), (''capacity'', JNum 10)])])"]
  by (simp add: flatFields_def metaFields_def storingEngine_def)

text \<open>
  C2 as stated fails at \<open>f = timeOfLastHeartbeat\<close>: the name is in neither allow-list
  and is not a heartbeat-derived field, the request carries it, and the stored value of
  \<open>timeOfLastHeartbeat\<close> changes from 5 to the time of the request, 9 (not to the
  value 0 the request carried): the change-set the handler commits holds it.
\<close>

theorem heartbeat_stamp_counterexample:
  "''timeOfLastHeartbeat'' \<notin> set flatFields \<and> ''timeOfLastHeartbeat'' \<notin> set metaFields
   \<and> ''timeOfLastHeartbeat'' \<noteq> ''num_users'' \<and> ''timeOfLastHeartbeat'' \<noteq> ''num_anon_users''
   \<and> stored (hd (domains sampleWorld)) ''timeOfLastHeartbeat'' = Some (JDate 5)
   \<and> stored (hd (domains (worldOf
        (procPutDomains grantAll storingEngine 9
           (sampleRequest (Some sampleDomain) None
              (JObj [(''domain'', JObj [(''timeOfLastHeartbeat'', JNum 0)])]))
           sampleWorld)))) ''timeOfLastHeartbeat''
      = Some (JDate 9)
   \<and> committedValue (last (trace (worldOf
        (procPutDomains grantAll storingEngine 9
           (sampleRequest (Some sampleDomain) None
              (JObj [(''domain'', JObj [(''timeOfLastHeartbeat'', JNum 0)])]))
           sampleWorld)))) ''timeOfLastHeartbeat''
      = Some (JDate 9)"
proof -
  have "collectUpdates setf (JObj [(''timeOfLastHeartbeat'', JNum 0)]) st = (None, st)" for setf st
    by (simp add: collectUpdates_def flatFields_def metaFields_def setHeartbeat_def setMeta_def)
  then show ?thesis
    by (simp add: procPutDomains_def sample_defs worldOf_def Domains_updateEntityFields_def
          flatFields_def metaFields_def)
qed

text \<open>
  C3, amended. For an authorized PUT on a resolved Domain: when the \<open>domain\<close> value of
  the body is missing or otherwise falsy, the response is the failure
  \<open>badly formed data\<close> and the world is unchanged; when it is the empty object, the
  payload counts as present: no field goes to the engine and a change-set holding only
  \<open>timeOfLastHeartbeat\<close>, set to the current time, is committed, with no failure.
\<close>

theorem put_without_payload_is_badly_formed:
  assumes "vDomain req = Some d"
    and "checkAccessToEntity (vAuthToken req) d [DOMAIN, SPONSOR, ADMIN]"
  shows "(\<forall>v. getProp (body req) ''domain'' = Inr v \<and> \<not> truthy v \<longrightarrow>
            procPutDomains checkAccessToEntity setDomainField now req W =
              (NextCalled, W, (vRestResp req)\<lparr>success := False, message := Some ''badly formed data''\<rparr>))
       \<and> (getProp (body req) ''domain'' = Inr (JObj []) \<longrightarrow>
            procPutDomains checkAccessToEntity setDomainField now req W =
              (NextCalled,
               Domains_updateEntityFields d [''timeOfLastHeartbeat'' \<mapsto> JDate now] W,
               vRestResp req))"
proof (intro conjI allI impI)
  fix v assume "getProp (body req) ''domain'' = Inr v \<and> \<not> truthy v"
  then show "procPutDomains checkAccessToEntity setDomainField now req W =
              (NextCalled, W, (vRestResp req)\<lparr>success := False, message := Some ''badly formed data''\<rparr>)"
    using assms procPut_falsy [of req d checkAccessToEntity v setDomainField now W]
    by (simp add: respondFailure_def)
next
  assume e: "getProp (body req) ''domain'' = Inr (JObj [])"
  have "W\<lparr>trace := trace W\<rparr> = W" by simp
  then show "procPutDomains checkAccessToEntity setDomainField now req W =
              (NextCalled,
               Domains_updateEntityFields d [''timeOfLastHeartbeat'' \<mapsto> JDate now] W,
               vRestResp req)"
    using assms e
      procPut_present [of req d checkAccessToEntity "JObj []" setDomainField W None Map.empty "trace W" now]
    by (simp add: collectUpdates_empty_object)
qed

theorem put_without_payload_is_badly_formed_witness:
  "procPutDomains grantAll storingEngine 9 (sampleRequest (Some sampleDomain) None (JObj [])) sampleWorld =
     (NextCalled, sampleWorld, sampleResp\<lparr>success := False, message := Some ''badly formed data''\<rparr>)
   \<and> procPutDomains grantAll storingEngine 9
        (sampleRequest (Some sampleDomain) None (JObj [(''domain'', JObj [])])) sampleWorld =
     (NextCalled,
      Domains_updateEntityFields sampleDomain [''timeOfLastHeartbeat'' \<mapsto> JDate 9] sampleWorld,
      sampleResp)"
  using put_without_payload_is_badly_formed
      [of "sampleRequest (Some sampleDomain) None (JObj [])" sampleDomain grantAll storingEngine 9 sampleWorld]
    put_without_payload_is_badly_formed
      [of "sampleRequest (Some sampleDomain) None (JObj [(''domain'', JObj [])])" sampleDomain grantAll
          storingEngine 9 sampleWorld]
  by (simp add: sampleRequest_def grantAll_def)

text \<open>
  C3 as stated fails at the body \<open>{domain: {}}\<close>: no failure message is set, one call
  is made, the commit of a change-set with \<open>timeOfLastHeartbeat\<close>, and the stored
  \<open>timeOfLastHeartbeat\<close> moves from 5 to 9.
\<close>

theorem empty_object_payload_counterexample:
  "message (responseOf (procPutDomains grantAll storingEngine 9
              (sampleRequest (Some sampleDomain) None (JObj [(''domain'', JObj [])])) sampleWorld)) = None
   \<and> success (responseOf (procPutDomains grantAll storingEngine 9
              (sampleRequest (Some sampleDomain) None (JObj [(''domain'', JObj [])])) sampleWorld))
   \<and> stored (hd (domains sampleWorld)) ''timeOfLastHeartbeat'' = Some (JDate 5)
   \<and> stored (hd (domains (worldOf (procPutDomains grantAll storingEngine 9
              (sampleRequest (Some sampleDomain) None (JObj [(''domain'', JObj [])])) sampleWorld))))
         ''timeOfLastHeartbeat''
       = Some (JDate 9)
   \<and> length (newCalls sampleWorld (worldOf (procPutDomains grantAll storingEngine 9
              (sampleRequest (Some sampleDomain) None (JObj [(''domain'', JObj [])])) sampleWorld))) = 1
   \<and> committedValue (last (trace (worldOf (procPutDomains grantAll storingEngine 9
              (sampleRequest (Some sampleDomain) None (JObj [(''domain'', JObj [])])) sampleWorld))))
         ''timeOfLastHeartbeat''
       = Some (JDate 9)"
  by (simp add: procPutDomains_def collectUpdates_empty_object sample_defs responseOf_def worldOf_def
        newCalls_def Domains_updateEntityFields_def)

text \<open>
  C4 fails on the code at the body \<open>{domain: {heartbeat: null}}\<close> sent by an authorized
  caller: permission is granted and the payload is present, but reading
  \<open>valuesToSet.heartbeat.num_users\<close> throws, so the handler never reaches the stamp and
  the commit: the world is unchanged and \<open>next()\<close> is not called.
\<close>

theorem null_heartbeat_put_throws_before_commit:
  "procPutDomains grantAll setDomainField now
     (sampleRequest (Some sampleDomain) acct (JObj [(''domain'', JObj [(''heartbeat'', JNull)])])) W =
     (Threw TypeError, W, sampleResp)"
  by (simp add: procPutDomains_def sampleRequest_def grantAll_def collectUpdates_def flatFields_def
        setHeartbeat_def)

text \<open>
  C5, amended. When the \<open>domain\<close> object of an authorized PUT has a \<open>meta\<close> object
  (and neither object shadows \<open>hasOwnProperty\<close>, and \<open>heartbeat\<close> is not null),
  both shapes are applied in the same update: the flat allow-listed fields present in the
  outer object go to the engine first, then the two heartbeat-derived fields, then the
  meta allow-listed fields present in \<open>meta\<close>, all into one change-set, which is
  stamped and committed once.
\<close>

theorem flat_and_meta_fields_both_applied:
  assumes "vDomain req = Some d"
    and "checkAccessToEntity (vAuthToken req) d [DOMAIN, SPONSOR, ADMIN]"
    and "getProp (body req) ''domain'' = Inr (JObj kvs)"
    and "map_of kvs ''meta'' = Some (JObj ms)"
    and "map_of kvs ''hasOwnProperty'' = None" and "map_of ms ''hasOwnProperty'' = None"
    and "map_of kvs ''heartbeat'' \<noteq> Some JNull" and "map_of kvs ''heartbeat'' \<noteq> Some JUndefined"
  shows "procPutDomains checkAccessToEntity setDomainField now req W =
           (NextCalled,
            Domains_updateEntityFields d
              ((fst (applyFields
                       (\<lambda>field v updated. setDomainField (vAuthToken req) d field v (vAuthAccount req) updated)
                       (presentFields flatFields kvs @ heartbeatFields kvs @ presentFields metaFields ms)
                       (Map.empty, trace W)))
                 (''timeOfLastHeartbeat'' \<mapsto> JDate now))
              (W\<lparr>trace := trace W @ map (\<lambda>fv. SetDomainField (fst fv) (snd fv))
                   (presentFields flatFields kvs @ heartbeatFields kvs @ presentFields metaFields ms)\<rparr>),
            vRestResp req)
       \<and> engineFields (newCalls W (worldOf (procPutDomains checkAccessToEntity setDomainField now req W)))
           = map fst (presentFields flatFields kvs) @ map fst (heartbeatFields kvs)
             @ map fst (presentFields metaFields ms)"
proof -
  let ?setf = "\<lambda>field v updated. setDomainField (vAuthToken req) d field v (vAuthAccount req) updated"
  let ?fvs = "presentFields flatFields kvs @ heartbeatFields kvs @ presentFields metaFields ms"
  let ?st = "applyFields ?setf ?fvs (Map.empty, trace W)"
  have c: "collectUpdates ?setf (JObj kvs) (Map.empty, trace W) = (None, (fst ?st, snd ?st))"
    using assms(4-8) by (simp add: collectUpdates_obj)
  have t: "snd ?st = trace W @ map (\<lambda>fv. SetDomainField (fst fv) (snd fv)) ?fvs"
    by (simp add: applyFields_trace)
  have res: "procPutDomains checkAccessToEntity setDomainField now req W =
           (NextCalled,
            Domains_updateEntityFields d ((fst ?st)(''timeOfLastHeartbeat'' \<mapsto> JDate now))
              (W\<lparr>trace := snd ?st\<rparr>), vRestResp req)"
    using procPut_present [of req d checkAccessToEntity "JObj kvs" setDomainField W None "fst ?st" "snd ?st" now]
      assms(1-3) c by simp
  have "engineFields (newCalls W (worldOf (procPutDomains checkAccessToEntity setDomainField now req W)))
           = map fst ?fvs"
    unfolding res t
    by (simp add: newCalls_def worldOf_def Domains_updateEntityFields_def engineFields_append engineFields_map)
  then show ?thesis using res t by simp
qed

theorem flat_and_meta_fields_both_applied_witness:
  "procPutDomains grantAll storingEngine 9
     (sampleRequest (Some sampleDomain) None
        (JObj [(''domain'', JObj [(''version'', JStr ''1''),
                                  (''meta'', JObj [(''contact_info'', JStr ''x'')])])]))
     sampleWorld =
   (NextCalled,
    Domains_updateEntityFields sampleDomain
      [''version'' \<mapsto> JStr ''1'', ''contact_info'' \<mapsto> JStr ''x'', ''timeOfLastHeartbeat'' \<mapsto> JDate 9]
      (sampleWorld\<lparr>trace := [SetDomainField ''version'' (JStr ''1''),
                               SetDomainField ''contact_info'' (JStr ''x'')]\<rparr>),
    sampleResp)"
  using flat_and_meta_fields_both_applied
    [of "sampleRequest (Some sampleDomain) None
        (JObj [(''domain'', JObj [(''version'', JStr ''1''),
                                  (''meta'', JObj [(''contact_info'', JStr ''x'')])])])"
        sampleDomain grantAll
        "[(''version'', JStr ''1''), (''meta'', JObj [(''contact_info'', JStr ''x'')])]"
        "[(''contact_info'', JStr ''x'')]" storingEngine 9 sampleWorld]
  by (simp add: sampleRequest_def grantAll_def storingEngine_def sampleWorld_def presentFields_def
        heartbeatFields_def flatFields_def metaFields_def applyFields_def
        callSetDomainField_def)

text \<open>
  C5 as stated fails at the body \<open>{domain: {version: "1", meta: {contact_info: "x"}}}\<close>:
  \<open>version\<close> is only in the flat allow-list, \<open>contact_info\<close> only in the meta
  allow-list, and both are passed to the engine and stored by the same update.
\<close>

theorem flat_and_meta_together_counterexample:
  "''version'' \<in> set flatFields \<and> ''version'' \<notin> set metaFields
   \<and> ''contact_info'' \<in> set metaFields \<and> ''contact_info'' \<notin> set flatFields
   \<and> engineFields (newCalls sampleWorld (worldOf
        (procPutDomains grantAll storingEngine 9
           (sampleRequest (Some sampleDomain) None
              (JObj [(''domain'', JObj [(''version'', JStr ''1''),
                                        (''meta'', JObj [(''contact_info'', JStr ''x'')])])]))
           sampleWorld)))
      = [''version'', ''contact_info'']
   \<and> stored (hd (domains (worldOf
        (procPutDomains grantAll storingEngine 9
           (sampleRequest (Some sampleDomain) None
              (JObj [(''domain'', JObj [(''version'', JStr ''1''),
                                        (''meta'', JObj [(''contact_info'', JStr ''x'')])])]))
           sampleWorld)))) ''version''
      = Some (JStr ''1'')
   \<and> stored (hd (domains (worldOf
        (procPutDomains grantAll storingEngine 9
           (sampleRequest (Some sampleDomain) None
              (JObj [(''domain'', JObj [(''version'', JStr ''1''),
                                        (''meta'', JObj [(''contact_info'', JStr ''x'')])])]))
           sampleWorld)))) ''contact_info''
      = Some (JStr ''x'')"
proof -
  have "collectUpdates setf (JObj [(''version'', JStr ''1''), (''meta'', JObj [(''contact_info'', JStr ''x'')])])
          (u, cs)
        = (None, (setf ''contact_info'' (JStr ''x'') (setf ''version'' (JStr ''1'') u),
                  cs @ [SetDomainField ''version'' (JStr ''1''), SetDomainField ''contact_info'' (JStr ''x'')]))"
    for setf u cs
    by (simp add: collectUpdates_def flatFields_def metaFields_def setHeartbeat_def setMeta_def
          callSetDomainField_def)
  then show ?thesis
    by (simp add: procPutDomains_def sample_defs worldOf_def newCalls_def Domains_updateEntityFields_def
          flatFields_def metaFields_def)
qed

text \<open>
  C6, amended. The PUT handler tests in this order: whether the Domain resolved (if not:
  the resolution failure under status \<open>Unauthorized\<close>), then the permission (if denied:
  \<open>Unauthorized\<close>, whatever the body holds), then the presence of the payload (if
  falsy: \<open>badly formed data\<close>). The payload is looked at only after permission was
  granted.
\<close>

theorem put_checks_permission_before_payload:
  "(vDomain req = None \<longrightarrow>
      procPutDomains checkAccessToEntity setDomainField now req W =
        (NextCalled, W,
         (vRestResp req)\<lparr>success := False,
            message := Some (case vDomainError req of None \<Rightarrow> ''Domain not found'' | Some m \<Rightarrow> m),
            HTTPStatus := Unauthorized\<rparr>))
   \<and> (\<forall>d. vDomain req = Some d \<and> \<not> checkAccessToEntity (vAuthToken req) d [DOMAIN, SPONSOR, ADMIN] \<longrightarrow>
      procPutDomains checkAccessToEntity setDomainField now req W =
        (NextCalled, W, (vRestResp req)\<lparr>success := False, message := Some ''Unauthorized''\<rparr>))
   \<and> (\<forall>d v. vDomain req = Some d \<and> checkAccessToEntity (vAuthToken req) d [DOMAIN, SPONSOR, ADMIN]
          \<and> getProp (body req) ''domain'' = Inr v \<and> \<not> truthy v \<longrightarrow>
      procPutDomains checkAccessToEntity setDomainField now req W =
        (NextCalled, W, (vRestResp req)\<lparr>success := False, message := Some ''badly formed data''\<rparr>))"
  by (auto simp: procPut_unresolved procPut_denied procPut_falsy respondFailure_def)

theorem put_checks_permission_before_payload_witness:
  "procPutDomains denyAll storingEngine 9 (sampleRequest (Some sampleDomain) None (JObj [])) sampleWorld =
     (NextCalled, sampleWorld, sampleResp\<lparr>success := False, message := Some ''Unauthorized''\<rparr>)
   \<and> procPutDomains grantAll storingEngine 9 (sampleRequest (Some sampleDomain) None (JObj [])) sampleWorld =
     (NextCalled, sampleWorld, sampleResp\<lparr>success := False, message := Some ''badly formed data''\<rparr>)
   \<and> procPutDomains grantAll storingEngine 9 (sampleRequest None None (JObj [])) sampleWorld =
     (NextCalled, sampleWorld,
      sampleResp\<lparr>success := False, message := Some ''Domain not found'', HTTPStatus := Unauthorized\<rparr>)"
  using put_checks_permission_before_payload
      [of "sampleRequest (Some sampleDomain) None (JObj [])" denyAll storingEngine 9 sampleWorld]
    put_checks_permission_before_payload
      [of "sampleRequest (Some sampleDomain) None (JObj [])" grantAll storingEngine 9 sampleWorld]
    put_checks_permission_before_payload
      [of "sampleRequest None None (JObj [])" grantAll storingEngine 9 sampleWorld]
  by (simp add: sampleRequest_def denyAll_def grantAll_def)

text \<open>
  C6 as stated fails for a caller who is denied and sent no payload: the response is
  \<open>Unauthorized\<close>, not \<open>badly formed data\<close>.
\<close>

theorem denied_put_without_payload_counterexample:
  "message (responseOf (procPutDomains denyAll storingEngine 9
              (sampleRequest (Some sampleDomain) None (JObj [])) sampleWorld)) = Some ''Unauthorized''
   \<and> message (responseOf (procPutDomains denyAll storingEngine 9
              (sampleRequest (Some sampleDomain) None (JObj [])) sampleWorld)) \<noteq> Some ''badly formed data''"
  by (simp add: procPutDomains_def sampleRequest_def denyAll_def responseOf_def respondFailure_def sampleResp_def)

text \<open>
  C7. DELETE: a caller with no resolved Account or with an Account that is not an
  administrator gets \<open>Not authorized\<close> and the world is unchanged; an administrator
  whose target Domain did not resolve gets \<open>Target domain does not exist\<close> and the
  world is unchanged; the world changes only for an administrator and a resolved Domain.
\<close>

theorem delete_requires_admin:
  "(vAuthAccount req = None \<or> (\<exists>a. vAuthAccount req = Some a \<and> \<not> isAdmin a) \<longrightarrow>
      procDeleteDomains isAdmin req W =
        (NextCalled, W, (vRestResp req)\<lparr>success := False, message := Some ''Not authorized''\<rparr>))
   \<and> ((\<exists>a. vAuthAccount req = Some a \<and> isAdmin a) \<and> vDomain req = None \<longrightarrow>
      procDeleteDomains isAdmin req W =
        (NextCalled, W,
         (vRestResp req)\<lparr>success := False, message := Some ''Target domain does not exist''\<rparr>))
   \<and> (worldOf (procDeleteDomains isAdmin req W) \<noteq> W \<longrightarrow>
      (\<exists>a. vAuthAccount req = Some a \<and> isAdmin a) \<and> vDomain req \<noteq> None)"
proof (intro conjI impI)
  assume "vAuthAccount req = None \<or> (\<exists>a. vAuthAccount req = Some a \<and> \<not> isAdmin a)"
  then show "procDeleteDomains isAdmin req W =
        (NextCalled, W, (vRestResp req)\<lparr>success := False, message := Some ''Not authorized''\<rparr>)"
    using procDelete_not_admin [of req isAdmin W] by (simp add: respondFailure_def)
next
  assume "(\<exists>a. vAuthAccount req = Some a \<and> isAdmin a) \<and> vDomain req = None"
  then show "procDeleteDomains isAdmin req W =
        (NextCalled, W,
         (vRestResp req)\<lparr>success := False, message := Some ''Target domain does not exist''\<rparr>)"
    using procDelete_no_domain [of req _ isAdmin W] by (auto simp: respondFailure_def)
next
  assume changed: "worldOf (procDeleteDomains isAdmin req W) \<noteq> W"
  show "\<exists>a. vAuthAccount req = Some a \<and> isAdmin a"
  proof (rule ccontr)
    assume "\<not> (\<exists>a. vAuthAccount req = Some a \<and> isAdmin a)"
    then have "vAuthAccount req = None \<or> (\<exists>a. vAuthAccount req = Some a \<and> \<not> isAdmin a)"
      by (cases "vAuthAccount req") auto
    then show False using changed procDelete_not_admin [of req isAdmin W] by (simp add: worldOf_def)
  qed
  then obtain a where a: "vAuthAccount req = Some a" "isAdmin a" by blast
  show "vDomain req \<noteq> None"
  proof
    assume "vDomain req = None"
    then show False using changed a procDelete_no_domain [of req a isAdmin W] by (simp add: worldOf_def)
  qed
qed

theorem delete_requires_admin_witness:
  "procDeleteDomains sampleIsAdmin (sampleRequest (Some sampleDomain) (Some ''guest'') JNull) sampleWorld =
     (NextCalled, sampleWorld, sampleResp\<lparr>success := False, message := Some ''Not authorized''\<rparr>)
   \<and> procDeleteDomains sampleIsAdmin (sampleRequest None (Some ''admin'') JNull) sampleWorld =
     (NextCalled, sampleWorld,
      sampleResp\<lparr>success := False, message := Some ''Target domain does not exist''\<rparr>)
   \<and> worldOf (procDeleteDomains sampleIsAdmin (sampleRequest (Some sampleDomain) (Some ''admin'') JNull) sampleWorld)
       \<noteq> sampleWorld"
proof -
  have 1: "procDeleteDomains sampleIsAdmin (sampleRequest (Some sampleDomain) (Some ''guest'') JNull) sampleWorld =
     (NextCalled, sampleWorld, sampleResp\<lparr>success := False, message := Some ''Not authorized''\<rparr>)"
    using delete_requires_admin [of "sampleRequest (Some sampleDomain) (Some ''guest'') JNull" sampleIsAdmin sampleWorld]
    by (simp add: sampleRequest_def sampleIsAdmin_def)
  have 2: "procDeleteDomains sampleIsAdmin (sampleRequest None (Some ''admin'') JNull) sampleWorld =
     (NextCalled, sampleWorld,
      sampleResp\<lparr>success := False, message := Some ''Target domain does not exist''\<rparr>)"
    using delete_requires_admin [of "sampleRequest None (Some ''admin'') JNull" sampleIsAdmin sampleWorld]
    by (simp add: sampleRequest_def sampleIsAdmin_def)
  have 3: "worldOf (procDeleteDomains sampleIsAdmin (sampleRequest (Some sampleDomain) (Some ''admin'') JNull) sampleWorld)
       \<noteq> sampleWorld"
    by (simp add: worldOf_def procDeleteDomains_def sample_defs Let_def Places_enumerateAsync_def
          GenericFilter_domainId_def Domains_removeDomain_def Places_removePlace_def)
  show ?thesis using 1 2 3 by simp
qed



text \<open>
  C9. When the target Domain did not resolve, GET and PUT both respond with a failure that
  carries the resolution error message, or \<open>Domain not found\<close> when there is none,
  under the status \<open>Unauthorized\<close>, whatever the reason was; nothing else changes.
\<close>

theorem unresolved_domain_is_unauthorized:
  assumes "vDomain req = None"
  shows "procGetDomainsDomainid buildDomainInfoV1 req W =
           (NextCalled, W,
            (vRestResp req)\<lparr>success := False,
               message := Some (case vDomainError req of None \<Rightarrow> ''Domain not found'' | Some m \<Rightarrow> m),
               HTTPStatus := Unauthorized\<rparr>)
         \<and> procPutDomains checkAccessToEntity setDomainField now req W =
           (NextCalled, W,
            (vRestResp req)\<lparr>success := False,
               message := Some (case vDomainError req of None \<Rightarrow> ''Domain not found'' | Some m \<Rightarrow> m),
               HTTPStatus := Unauthorized\<rparr>)"
  using assms by (simp add: procPut_unresolved procGetDomainsDomainid_def respondFailure_def)

theorem unresolved_domain_is_unauthorized_witness:
  "procGetDomainsDomainid (\<lambda>d. Map.empty) (sampleRequest None None (JObj [])) sampleWorld =
     (NextCalled, sampleWorld,
      sampleResp\<lparr>success := False, message := Some ''Domain not found'', HTTPStatus := Unauthorized\<rparr>)
   \<and> procPutDomains grantAll storingEngine 9
        ((sampleRequest None None (JObj []))\<lparr>vDomainError := Some ''forbidden''\<rparr>) sampleWorld =
     (NextCalled, sampleWorld,
      sampleResp\<lparr>success := False, message := Some ''forbidden'', HTTPStatus := Unauthorized\<rparr>)"
  using unresolved_domain_is_unauthorized
      [of "sampleRequest None None (JObj [])" "\<lambda>d. Map.empty" sampleWorld grantAll storingEngine 9]
    unresolved_domain_is_unauthorized
      [of "(sampleRequest None None (JObj []))\<lparr>vDomainError := Some ''forbidden''\<rparr>"
          "\<lambda>d. Map.empty" sampleWorld grantAll storingEngine 9]
  by (simp add: sampleRequest_def)

text \<open>
  C10. In DELETE the administrator test comes before the test of the Domain: for a caller
  without an Account or with a non-administrator Account, the result is the same whether
  the target Domain resolved or not, it is \<open>Not authorized\<close>, and the world is unchanged.
\<close>

theorem non_admin_delete_independent_of_domain:
  assumes "vAuthAccount req = None \<or> (\<exists>a. vAuthAccount req = Some a \<and> \<not> isAdmin a)"
  shows "procDeleteDomains isAdmin (req\<lparr>vDomain := Some d\<rparr>) W =
           procDeleteDomains isAdmin (req\<lparr>vDomain := None\<rparr>) W
         \<and> procDeleteDomains isAdmin (req\<lparr>vDomain := x\<rparr>) W =
           (NextCalled, W, (vRestResp req)\<lparr>success := False, message := Some ''Not authorized''\<rparr>)"
  using assms procDelete_not_admin [of "req\<lparr>vDomain := Some d\<rparr>" isAdmin W]
    procDelete_not_admin [of "req\<lparr>vDomain := None\<rparr>" isAdmin W]
    procDelete_not_admin [of "req\<lparr>vDomain := x\<rparr>" isAdmin W]
  by (simp add: respondFailure_def)

theorem non_admin_delete_independent_of_domain_witness:
  "procDeleteDomains sampleIsAdmin (sampleRequest (Some sampleDomain) (Some ''guest'') JNull) sampleWorld =
     procDeleteDomains sampleIsAdmin (sampleRequest None (Some ''guest'') JNull) sampleWorld
   \<and> procDeleteDomains sampleIsAdmin (sampleRequest (Some sampleDomain) (Some ''guest'') JNull) sampleWorld =
     (NextCalled, sampleWorld, sampleResp\<lparr>success := False, message := Some ''Not authorized''\<rparr>)"
  using non_admin_delete_independent_of_domain
    [of "sampleRequest None (Some ''guest'') JNull" sampleIsAdmin sampleDomain sampleWorld "Some sampleDomain"]
  by (auto simp: sampleRequest_def sampleIsAdmin_def)

end
